theory Spec2Isabelle
  imports Main "HOL-Library.Multiset" "HOL-Library.AList"
begin

section \<open>The xapian bridge: HTTP handlers over an index registry and a location cache\<close>

text \<open>
  The source file is \<^verbatim>\<open>src/xapianBridge.js\<close>. It holds \<^verbatim>\<open>main\<close> (the startup replay
  loop and the four request handlers) and \<^verbatim>\<open>res\<close>. The modules it imports,
  \<^verbatim>\<open>databaseManager\<close> and \<^verbatim>\<open>databaseCache\<close>, are not part of the source tree at hand;
  they are modelled from the specification and marked as such. The search engine, the
  file system under the cache and the HTTP router are outside the program; what the
  program observes of them is the record \<open>world\<close>.
\<close>

subsection \<open>Constants of the source\<close>

definition META_DATABASE_NAME :: string where
  "META_DATABASE_NAME = ''_all''"

definition META_DATABASE_METHODS :: string where
  "META_DATABASE_METHODS = ''GET''"

definition MIME_JSON :: string where
  "MIME_JSON = ''application/json''"

text \<open>The values of \<^verbatim>\<open>Soup.Status\<close> that the handlers use.\<close>

definition Status_OK :: nat where "Status_OK = 200"
definition Status_BAD_REQUEST :: nat where "Status_BAD_REQUEST = 400"
definition Status_FORBIDDEN :: nat where "Status_FORBIDDEN = 403"
definition Status_NOT_FOUND :: nat where "Status_NOT_FOUND = 404"
definition Status_METHOD_NOT_ALLOWED :: nat where "Status_METHOD_NOT_ALLOWED = 405"
definition Status_INTERNAL_SERVER_ERROR :: nat where "Status_INTERNAL_SERVER_ERROR = 500"

subsection \<open>Data\<close>

text \<open>
  A thrown value. \<open>ERR_INVALID_PATH\<close> and \<open>ERR_DATABASE_NOT_FOUND\<close> are the two sentinels
  of \<^verbatim>\<open>DatabaseManager\<close> that the source compares with \<^verbatim>\<open>===\<close>; the other two are the
  specification's engine failure and the cache's storage failure.
\<close>

datatype error = ERR_INVALID_PATH | ERR_DATABASE_NOT_FOUND | EngineFailure | StorageFailure

text \<open>A scored document as the engine reports it.\<close>

record doc =
  doc_id :: string
  score :: int

text \<open>
  What the program sees of its surroundings: at which locations an index can be opened,
  what a search of the index at a location answers (\<open>None\<close> when the engine fails), and
  whether the cache's storage accepts writes.
\<close>

record world =
  openable :: "string \<Rightarrow> bool"
  search :: "string \<Rightarrow> string option \<Rightarrow> string option \<Rightarrow> nat \<Rightarrow> doc list option"
  storage_ok :: bool

text \<open>The calls made on the engine, in order: a trace kept beside the registry.\<close>

datatype engine_call =
    Open_Index string
  | Search_Index string "string option" "string option" nat
  | Close_Index string

text \<open>
  Modelled from the spec: the state of \<^verbatim>\<open>DatabaseManager\<close> and of \<^verbatim>\<open>DatabaseCache\<close>, whose
  modules are not in the source tree. The registry holds the open handles as (name,
  location) pairs in iteration order, and beside them the trace of engine calls; the cache
  holds its (name, location) entries.
\<close>

record manager =
  handles :: "(string \<times> string) list"
  engine_calls :: "engine_call list"

record cache =
  entries :: "(string \<times> string) list"

text \<open>
  The query string of a request as the router hands it over: a parameter that is absent
  is \<^verbatim>\<open>undefined\<close> in the source and \<open>None\<close> here. The handlers pass the limit on
  untouched; it is carried as the number it denotes, which is what the manager takes it
  for.
\<close>

record query =
  path :: "string option"
  q :: "string option"
  collapse :: "string option"
  limit :: "nat option"

text \<open>
  The \<^verbatim>\<open>SoupMessage\<close> as far as \<^verbatim>\<open>res\<close> writes it. The body is the value handed to
  \<^verbatim>\<open>JSON.stringify\<close>: \<open>Some []\<close> is the empty JSON array.
\<close>

record message =
  status :: nat
  response_headers :: "(string \<times> string) list"
  content_type :: "string option"
  body :: "doc list option"

record server =
  the_manager :: manager
  the_cache :: cache

text \<open>
  Modelled from the spec: \<^verbatim>\<open>new DatabaseManager()\<close>, whose module is not in the source tree. A
  new registry has no open handle.
\<close>

definition new_manager :: manager where
  "new_manager = \<lparr>handles = [], engine_calls = []\<rparr>"

subsection \<open>DatabaseManager\<close>

text \<open>
  Modelled from the spec: \<^verbatim>\<open>DatabaseManager.has_db\<close>, whose module is not in the source
  tree. \<open>has(name)\<close> is a pure lookup.
\<close>

definition has_db :: "manager \<Rightarrow> string \<Rightarrow> bool" where
  "has_db m index_name = (map_of (handles m) index_name \<noteq> None)"

text \<open>
  Modelled from the spec: \<^verbatim>\<open>DatabaseManager.create_db\<close>, whose module is not in the
  source tree. On a name with an open handle the call succeeds without touching the handle
  or validating the location; otherwise the location is validated by opening it, the call
  fails with \<open>ERR_INVALID_PATH\<close> and leaves the handles as they were when nothing can be
  opened there, and adds the handle when it can.
\<close>

definition create_db :: "world \<Rightarrow> manager \<Rightarrow> string \<Rightarrow> string \<Rightarrow> (error + unit) \<times> manager" where
  "create_db w m index_name p =
     (if has_db m index_name then (Inr (), m)
      else
        let m1 = m\<lparr>engine_calls := engine_calls m @ [Open_Index p]\<rparr>
        in if openable w p
           then (Inr (), m1\<lparr>handles := handles m1 @ [(index_name, p)]\<rparr>)
           else (Inl ERR_INVALID_PATH, m1))"

text \<open>
  Modelled from the spec: \<^verbatim>\<open>DatabaseManager.remove_db\<close>, whose module is not in the
  source tree. It fails with \<open>ERR_DATABASE_NOT_FOUND\<close> when the name has no open handle;
  otherwise the handle is released and the name is absent again.
\<close>

definition remove_db :: "manager \<Rightarrow> string \<Rightarrow> (error + unit) \<times> manager" where
  "remove_db m index_name =
     (case map_of (handles m) index_name of
        None \<Rightarrow> (Inl ERR_DATABASE_NOT_FOUND, m)
      | Some loc \<Rightarrow>
          (Inr (), m\<lparr>handles := filter (\<lambda>h. fst h \<noteq> index_name) (handles m),
                      engine_calls := engine_calls m @ [Close_Index loc]\<rparr>))"

text \<open>
  Modelled from the spec: \<^verbatim>\<open>DatabaseManager.query_db\<close>, whose module is not in the
  source tree. It fails with \<open>ERR_DATABASE_NOT_FOUND\<close> when the name has no open handle;
  otherwise it asks the engine handle and returns its answer unmodified, an engine failure
  being raised as \<open>EngineFailure\<close>.
\<close>

definition query_db ::
  "world \<Rightarrow> manager \<Rightarrow> string \<Rightarrow> string option \<Rightarrow> string option \<Rightarrow> nat
     \<Rightarrow> (error + doc list) \<times> manager" where
  "query_db w m index_name qe ck n =
     (case map_of (handles m) index_name of
        None \<Rightarrow> (Inl ERR_DATABASE_NOT_FOUND, m)
      | Some loc \<Rightarrow>
          let m1 = m\<lparr>engine_calls := engine_calls m @ [Search_Index loc qe ck n]\<rparr>
          in (case search w loc qe ck n of
                None \<Rightarrow> (Inl EngineFailure, m1)
              | Some ds \<Rightarrow> (Inr ds, m1)))"

text \<open>
  Modelled from the spec: the fan-out of \<^verbatim>\<open>DatabaseManager.query_all\<close>, whose module is not
  in the source tree. Every open handle is searched in iteration order, with the limit of
  the request; the first engine failure aborts the rest. The second component is the trace
  of the calls made.
\<close>

fun search_handles ::
  "world \<Rightarrow> (string \<times> string) list \<Rightarrow> string option \<Rightarrow> string option \<Rightarrow> nat
     \<Rightarrow> (error + doc list list) \<times> engine_call list" where
  "search_handles w [] qe ck n = (Inr [], [])"
| "search_handles w (h # hs) qe ck n =
     (case search w (snd h) qe ck n of
        None \<Rightarrow> (Inl EngineFailure, [Search_Index (snd h) qe ck n])
      | Some ds \<Rightarrow>
          (case search_handles w hs qe ck n of
             (Inl e, tr) \<Rightarrow> (Inl e, Search_Index (snd h) qe ck n # tr)
           | (Inr dss, tr) \<Rightarrow> (Inr (ds # dss), Search_Index (snd h) qe ck n # tr)))"

text \<open>
  Modelled from the spec: the merge of \<^verbatim>\<open>DatabaseManager.query_all\<close>, whose module is not in
  the source tree. The per-index results become one sequence ordered by descending score,
  documents of equal score staying in index iteration order (the sort is stable).
\<close>

definition merge_results :: "doc list list \<Rightarrow> doc list" where
  "merge_results dss = sort_key (\<lambda>d. - score d) (concat dss)"

text \<open>
  Modelled from the spec: \<^verbatim>\<open>DatabaseManager.query_all\<close>, whose module is not in the
  source tree. The query runs against every open handle, a failure of any one handle
  aborts the call with \<open>EngineFailure\<close>, the per-index results are merged by descending
  score and the limit is applied to the merged sequence.
\<close>

definition query_all ::
  "world \<Rightarrow> manager \<Rightarrow> string option \<Rightarrow> string option \<Rightarrow> nat \<Rightarrow> (error + doc list) \<times> manager" where
  "query_all w m qe ck n =
     (case search_handles w (handles m) qe ck n of
        (Inl e, tr) \<Rightarrow> (Inl e, m\<lparr>engine_calls := engine_calls m @ tr\<rparr>)
      | (Inr dss, tr) \<Rightarrow>
          (Inr (take n (merge_results dss)), m\<lparr>engine_calls := engine_calls m @ tr\<rparr>))"

subsection \<open>DatabaseCache\<close>

text \<open>
  Modelled from the spec: \<^verbatim>\<open>DatabaseCache.get_entries\<close>, whose module is not in the
  source tree. It returns a snapshot of the mapping from name to location; the keys of the
  JavaScript object are the first components, in iteration order.
\<close>

definition get_entries :: "cache \<Rightarrow> (string \<times> string) list" where
  "get_entries c = entries c"

text \<open>
  Modelled from the spec: \<^verbatim>\<open>DatabaseCache.set_entry\<close>, whose module is not in the
  source tree. It upserts; a storage failure surfaces to the caller and writes nothing.
\<close>

definition set_entry :: "world \<Rightarrow> cache \<Rightarrow> string \<Rightarrow> string \<Rightarrow> (error + unit) \<times> cache" where
  "set_entry w c index_name p =
     (if storage_ok w
      then (Inr (), c\<lparr>entries := AList.update index_name p (entries c)\<rparr>)
      else (Inl StorageFailure, c))"

text \<open>
  Modelled from the spec: \<^verbatim>\<open>DatabaseCache.remove_entry\<close>, whose module is not in the
  source tree. It is a no-op when the name is absent; otherwise it removes the entry, a
  storage failure surfacing to the caller and removing nothing.
\<close>

definition remove_entry :: "world \<Rightarrow> cache \<Rightarrow> string \<Rightarrow> (error + unit) \<times> cache" where
  "remove_entry w c index_name =
     (if map_of (entries c) index_name = None then (Inr (), c)
      else if storage_ok w
      then (Inr (), c\<lparr>entries := AList.delete index_name (entries c)\<rparr>)
      else (Inl StorageFailure, c))"

subsection \<open>The source: \<^verbatim>\<open>res\<close>\<close>

text \<open>
  \<^verbatim>\<open>res(soup_msg, status_code, headers, body)\<close>: the status is set; when headers are
  given, each replaces the response header of its name; when a body is given, it becomes
  the response, with the JSON content type.
\<close>

definition res ::
  "message \<Rightarrow> nat \<Rightarrow> (string \<times> string) list option \<Rightarrow> doc list option \<Rightarrow> message" where
  "res soup_msg status_code hdrs body_opt =
     (let m1 = soup_msg\<lparr>status := status_code\<rparr>;
          m2 = (case hdrs of
                  None \<Rightarrow> m1
                | Some hs \<Rightarrow>
                    m1\<lparr>response_headers :=
                         fold (\<lambda>h rh. AList.update (fst h) (snd h) rh) hs (response_headers m1)\<rparr>)
      in (case body_opt of
            None \<Rightarrow> m2
          | Some b \<Rightarrow> m2\<lparr>content_type := Some MIME_JSON, body := Some b\<rparr>))"

subsection \<open>The source: the startup replay of \<^verbatim>\<open>main\<close>\<close>

text \<open>
  The loop over the snapshot. A failure of \<open>create_db\<close> is caught; when it is
  \<open>ERR_INVALID_PATH\<close> the entry is removed from the cache, any other failure is dropped.
  \<open>remove_entry\<close> is called inside the \<^verbatim>\<open>catch\<close> block, so a failure of it is not caught:
  it leaves \<^verbatim>\<open>main\<close>, which is the result \<open>Inl\<close>.
\<close>

fun main_replay ::
  "world \<Rightarrow> (string \<times> string) list \<Rightarrow> manager \<Rightarrow> cache \<Rightarrow> error + (manager \<times> cache)" where
  "main_replay w [] m c = Inr (m, c)"
| "main_replay w (e # stored) m c =
     (case create_db w m (fst e) (snd e) of
        (Inr u, m') \<Rightarrow> main_replay w stored m' c
      | (Inl err, m') \<Rightarrow>
          if err = ERR_INVALID_PATH
          then (case remove_entry w c (fst e) of
                  (Inr u, c') \<Rightarrow> main_replay w stored m' c'
                | (Inl err', c') \<Rightarrow> Inl err')
          else main_replay w stored m' c)"

text \<open>
  \<^verbatim>\<open>main\<close> up to the registration of the handlers: a new manager, the snapshot of the
  cache, the replay. The result is the state the handlers serve from.
\<close>

definition main :: "world \<Rightarrow> cache \<Rightarrow> error + server" where
  "main w c =
     (let stored_database_paths = get_entries c
      in (case main_replay w stored_database_paths new_manager c of
            Inl err \<Rightarrow> Inl err
          | Inr (m, c') \<Rightarrow> Inr \<lparr>the_manager = m, the_cache = c'\<rparr>))"

subsection \<open>The source: the request handlers\<close>

text \<open>\<^verbatim>\<open>GET /:index_name\<close>\<close>

definition get_index :: "server \<Rightarrow> string \<Rightarrow> query \<Rightarrow> message \<Rightarrow> message \<times> server" where
  "get_index s index_name qy msg =
     (if has_db (the_manager s) index_name \<or> index_name = META_DATABASE_NAME
      then (res msg Status_OK None None, s)
      else (res msg Status_NOT_FOUND None None, s))"

text \<open>
  \<^verbatim>\<open>PUT /:index_name\<close>. The \<^verbatim>\<open>try\<close> block holds \<open>create_db\<close> and \<open>set_entry\<close>; the one
  \<^verbatim>\<open>catch\<close> answers 403 to \<open>ERR_INVALID_PATH\<close> and 500 to everything else, and undoes
  nothing.
\<close>

definition put_index :: "world \<Rightarrow> server \<Rightarrow> string \<Rightarrow> query \<Rightarrow> message \<Rightarrow> message \<times> server" where
  "put_index w s index_name qy msg =
     (case path qy of
        None \<Rightarrow> (res msg Status_BAD_REQUEST None None, s)
      | Some p \<Rightarrow>
          if index_name = META_DATABASE_NAME
          then (res msg Status_METHOD_NOT_ALLOWED (Some [(''Allow'', META_DATABASE_METHODS)]) None, s)
          else if \<not> has_db (the_manager s) index_name
          then (case create_db w (the_manager s) index_name p of
                  (Inl e, m') \<Rightarrow>
                    (if e = ERR_INVALID_PATH then res msg Status_FORBIDDEN None None
                     else res msg Status_INTERNAL_SERVER_ERROR None None,
                     s\<lparr>the_manager := m'\<rparr>)
                | (Inr u, m') \<Rightarrow>
                    (case set_entry w (the_cache s) index_name p of
                       (Inl e, c') \<Rightarrow>
                         (if e = ERR_INVALID_PATH then res msg Status_FORBIDDEN None None
                          else res msg Status_INTERNAL_SERVER_ERROR None None,
                          s\<lparr>the_manager := m', the_cache := c'\<rparr>)
                     | (Inr u', c') \<Rightarrow>
                         (res msg Status_OK None None, s\<lparr>the_manager := m', the_cache := c'\<rparr>)))
          else (res msg Status_OK None None, s))"

text \<open>
  \<^verbatim>\<open>DELETE /:index_name\<close>. The \<^verbatim>\<open>catch\<close> answers 404 to whatever was thrown, by
  \<open>remove_db\<close> or by \<open>remove_entry\<close>.
\<close>

definition delete_index :: "world \<Rightarrow> server \<Rightarrow> string \<Rightarrow> query \<Rightarrow> message \<Rightarrow> message \<times> server" where
  "delete_index w s index_name qy msg =
     (if index_name = META_DATABASE_NAME
      then (res msg Status_METHOD_NOT_ALLOWED (Some [(''Allow'', META_DATABASE_METHODS)]) None, s)
      else (case remove_db (the_manager s) index_name of
              (Inl e, m') \<Rightarrow> (res msg Status_NOT_FOUND None None, s\<lparr>the_manager := m'\<rparr>)
            | (Inr u, m') \<Rightarrow>
                (case remove_entry w (the_cache s) index_name of
                   (Inl e, c') \<Rightarrow>
                     (res msg Status_NOT_FOUND None None, s\<lparr>the_manager := m', the_cache := c'\<rparr>)
                 | (Inr u', c') \<Rightarrow>
                     (res msg Status_OK None None, s\<lparr>the_manager := m', the_cache := c'\<rparr>))))"

text \<open>
  \<^verbatim>\<open>GET /:index_name/query\<close>. The limit is checked before anything else; the \<^verbatim>\<open>catch\<close>
  answers 404 to \<open>ERR_DATABASE_NOT_FOUND\<close> and 500 to everything else.
\<close>

definition query_index :: "world \<Rightarrow> server \<Rightarrow> string \<Rightarrow> query \<Rightarrow> message \<Rightarrow> message \<times> server" where
  "query_index w s index_name qy msg =
     (case limit qy of
        None \<Rightarrow> (res msg Status_BAD_REQUEST None None, s)
      | Some n \<Rightarrow>
          (case (if index_name = META_DATABASE_NAME
                 then query_all w (the_manager s) (q qy) (collapse qy) n
                 else query_db w (the_manager s) index_name (q qy) (collapse qy) n) of
             (Inr results, m') \<Rightarrow> (res msg Status_OK None (Some results), s\<lparr>the_manager := m'\<rparr>)
           | (Inl e, m') \<Rightarrow>
               (if e = ERR_DATABASE_NOT_FOUND then res msg Status_NOT_FOUND None None
                else res msg Status_INTERNAL_SERVER_ERROR None None,
                s\<lparr>the_manager := m'\<rparr>)))"

subsection \<open>A scenario\<close>

text \<open>
  The startup scenario of the specification, made concrete: an index can be opened at
  \<^verbatim>\<open>/valid/path\<close> and at \<^verbatim>\<open>/other/path\<close> and nowhere else; the cache holds \<open>idx1\<close> at a
  valid path and \<open>idx2\<close> at a missing one.
\<close>

definition blank_message :: message where
  "blank_message = \<lparr>status = 0, response_headers = [], content_type = None, body = None\<rparr>"

definition no_params :: query where
  "no_params = \<lparr>path = None, q = None, collapse = None, limit = None\<rparr>"

definition doc_a :: doc where "doc_a = \<lparr>doc_id = ''a'', score = 7\<rparr>"
definition doc_b :: doc where "doc_b = \<lparr>doc_id = ''b'', score = 3\<rparr>"
definition doc_c :: doc where "doc_c = \<lparr>doc_id = ''c'', score = 5\<rparr>"

definition example_search :: "string \<Rightarrow> string option \<Rightarrow> string option \<Rightarrow> nat \<Rightarrow> doc list option" where
  "example_search loc qe ck n =
     (if loc = ''/valid/path'' then Some (take n [doc_a, doc_b])
      else if loc = ''/other/path'' then Some (take n [doc_c])
      else None)"

definition example_openable :: "string \<Rightarrow> bool" where
  "example_openable p = (p = ''/valid/path'' \<or> p = ''/other/path'')"

definition example_world :: world where
  "example_world = \<lparr>openable = example_openable, search = example_search, storage_ok = True\<rparr>"

text \<open>The same surroundings with a cache storage that refuses writes.\<close>

definition disk_full_world :: world where
  "disk_full_world = \<lparr>openable = example_openable, search = example_search, storage_ok = False\<rparr>"

definition example_cache :: cache where
  "example_cache = \<lparr>entries = [(''idx1'', ''/valid/path''), (''idx2'', ''/missing/path'')]\<rparr>"

text \<open>A server with nothing open, one with \<open>idx1\<close> open, and one with two open indices.\<close>

definition empty_server :: server where
  "empty_server = \<lparr>the_manager = new_manager, the_cache = \<lparr>entries = []\<rparr>\<rparr>"

definition example_server :: server where
  "example_server =
     \<lparr>the_manager = \<lparr>handles = [(''idx1'', ''/valid/path'')],
                      engine_calls = [Open_Index ''/valid/path'', Open_Index ''/missing/path'']\<rparr>,
      the_cache = \<lparr>entries = [(''idx1'', ''/valid/path'')]\<rparr>\<rparr>"

definition two_index_server :: server where
  "two_index_server =
     \<lparr>the_manager = \<lparr>handles = [(''idx1'', ''/valid/path''), (''idx3'', ''/other/path'')],
                      engine_calls = [Open_Index ''/valid/path'', Open_Index ''/other/path'']\<rparr>,
      the_cache = \<lparr>entries = [(''idx1'', ''/valid/path''), (''idx3'', ''/other/path'')]\<rparr>\<rparr>"

text \<open>
  A server whose second handle lies at a location that has since gone: it was open, and the
  engine can no longer search it.
\<close>

definition stale_handle_server :: server where
  "stale_handle_server =
     \<lparr>the_manager = \<lparr>handles = [(''idx1'', ''/valid/path''), (''idx4'', ''/gone/path'')],
                      engine_calls = [Open_Index ''/valid/path'', Open_Index ''/gone/path'']\<rparr>,
      the_cache = \<lparr>entries = [(''idx1'', ''/valid/path''), (''idx4'', ''/gone/path'')]\<rparr>\<rparr>"

text \<open>
  A cache whose first entry is stale, and a cache that holds an entry for the reserved name
  (the handlers never write one; the file of the cache can hold one all the same), with the
  server that \<^verbatim>\<open>main\<close> starts from it.
\<close>

definition stale_first_cache :: cache where
  "stale_first_cache = \<lparr>entries = [(''idx2'', ''/missing/path''), (''idx1'', ''/valid/path'')]\<rparr>"

definition reserved_cache :: cache where
  "reserved_cache = \<lparr>entries = [(''_all'', ''/valid/path'')]\<rparr>"

definition reserved_server :: server where
  "reserved_server =
     \<lparr>the_manager = \<lparr>handles = [(''_all'', ''/valid/path'')],
                      engine_calls = [Open_Index ''/valid/path'']\<rparr>,
      the_cache = \<lparr>entries = [(''_all'', ''/valid/path'')]\<rparr>\<rparr>"

section \<open>Properties\<close>

subsection \<open>Auxiliary facts\<close>

lemmas scenario_defs =
  blank_message_def no_params_def doc_a_def doc_b_def doc_c_def example_search_def
  example_openable_def example_world_def disk_full_world_def
  example_cache_def empty_server_def example_server_def
  two_index_server_def stale_handle_server_def stale_first_cache_def reserved_cache_def
  reserved_server_def new_manager_def META_DATABASE_NAME_def

lemmas status_defs =
  Status_OK_def Status_BAD_REQUEST_def Status_FORBIDDEN_def Status_NOT_FOUND_def
  Status_METHOD_NOT_ALLOWED_def Status_INTERNAL_SERVER_ERROR_def

lemma status_res [simp]: "status (res msg code hdrs b) = code"
  by (simp add: res_def Let_def split: option.splits)

lemma body_res_None [simp]: "body (res msg code hdrs None) = body msg"
  by (simp add: res_def Let_def split: option.splits)

lemma body_res_Some [simp]: "body (res msg code hdrs (Some b)) = Some b"
  by (simp add: res_def Let_def split: option.splits)

lemma Allow_res [simp]:
  "map_of (response_headers (res msg code (Some [(k, v)]) b)) k = Some v"
  by (simp add: res_def Let_def update_conv' split: option.splits)

lemma has_db_iff: "has_db m n \<longleftrightarrow> n \<in> fst ` set (handles m)"
  by (simp add: has_db_def map_of_eq_None_iff)

lemma no_open_iff: "(\<forall>n. \<not> has_db m n) \<longleftrightarrow> handles m = []"
  by (cases "handles m") (auto simp: has_db_def)

lemma search_handles_fails:
  "h \<in> set hs \<Longrightarrow> search w (snd h) qe ck n = None \<Longrightarrow>
   fst (search_handles w hs qe ck n) = Inl EngineFailure"
  by (induction hs) (auto split: option.splits prod.splits sum.splits)

lemma search_handles_ok:
  "\<forall>h \<in> set hs. search w (snd h) qe ck n \<noteq> None \<Longrightarrow>
   search_handles w hs qe ck n =
     (Inr (map (\<lambda>h. the (search w (snd h) qe ck n)) hs),
      map (\<lambda>h. Search_Index (snd h) qe ck n) hs)"
  by (induction hs) (auto split: option.splits prod.splits sum.splits)

lemma fst_query_all:
  "fst (query_all w m qe ck n) =
     (case fst (search_handles w (handles m) qe ck n) of
        Inl e \<Rightarrow> Inl e
      | Inr dss \<Rightarrow> Inr (take n (merge_results dss)))"
  by (cases "search_handles w (handles m) qe ck n") (auto simp: query_all_def split: sum.splits)

lemma fst_query_index_all:
  "limit qy = Some n \<Longrightarrow>
   fst (query_index w s META_DATABASE_NAME qy msg) =
     (case fst (query_all w (the_manager s) (q qy) (collapse qy) n) of
        Inr results \<Rightarrow> res msg Status_OK None (Some results)
      | Inl e \<Rightarrow> if e = ERR_DATABASE_NOT_FOUND then res msg Status_NOT_FOUND None None
                 else res msg Status_INTERNAL_SERVER_ERROR None None)"
  by (cases "query_all w (the_manager s) (q qy) (collapse qy) n")
     (auto simp: query_index_def split: sum.splits)

lemma fst_query_db:
  "map_of (handles m) index_name = Some loc \<Longrightarrow>
   fst (query_db w m index_name qe ck n) =
     (case search w loc qe ck n of None \<Rightarrow> Inl EngineFailure | Some ds \<Rightarrow> Inr ds)"
  by (simp add: query_db_def Let_def split: option.splits)

lemma create_db_fresh:
  "\<not> has_db m index_name \<Longrightarrow>
   create_db w m index_name p =
     (if openable w p
      then (Inr (), \<lparr>handles = handles m @ [(index_name, p)],
                     engine_calls = engine_calls m @ [Open_Index p]\<rparr>)
      else (Inl ERR_INVALID_PATH, m\<lparr>engine_calls := engine_calls m @ [Open_Index p]\<rparr>))"
  by (simp add: create_db_def Let_def)

lemma map_of_append_fresh:
  "map_of xs k = None \<Longrightarrow> map_of (xs @ [(k, v)]) k = Some v"
  by (simp add: map_add_def)

subsection \<open>The empty registry\<close>

text \<open>
  C5. A query of the reserved name \<^verbatim>\<open>_all\<close> that carries a limit, on a registry with no
  open index, is answered with status 200 and the empty array as body; it is not an error,
  and the server state is as before.
\<close>

theorem query_all_empty:
  assumes "\<forall>n. \<not> has_db (the_manager s) n"
  shows "query_index w s META_DATABASE_NAME (qy\<lparr>limit := Some N\<rparr>) msg
           = (res msg Status_OK None (Some []), s)
       \<and> status (fst (query_index w s META_DATABASE_NAME (qy\<lparr>limit := Some N\<rparr>) msg)) = 200
       \<and> body (fst (query_index w s META_DATABASE_NAME (qy\<lparr>limit := Some N\<rparr>) msg)) = Some []"
proof -
  from assms have "handles (the_manager s) = []" by (simp add: no_open_iff)
  then show ?thesis
    by (simp add: query_index_def query_all_def merge_results_def Status_OK_def)
qed

theorem query_all_empty_witness:
  "(\<forall>n. \<not> has_db (the_manager empty_server) n)
   \<and> status (fst (query_index example_world empty_server ''_all'' (no_params\<lparr>limit := Some 5\<rparr>)
                 blank_message)) = 200
   \<and> body (fst (query_index example_world empty_server ''_all'' (no_params\<lparr>limit := Some 5\<rparr>)
               blank_message)) = Some []"
proof -
  have h: "\<forall>n. \<not> has_db (the_manager empty_server) n"
    by (simp add: has_db_def empty_server_def new_manager_def)
  from query_all_empty [OF h, where w = example_world and qy = no_params and N = 5
      and msg = blank_message] h
  show ?thesis by (simp add: META_DATABASE_NAME_def status_defs)
qed

subsection \<open>Engine failure during the fan-out\<close>

text \<open>
  C6. When the search of any one open handle fails, \<open>query_all\<close> as a whole fails with
  \<open>EngineFailure\<close>, and the handler answers the query of \<^verbatim>\<open>_all\<close> with status 500 and sets no
  body: no partial result is returned.
\<close>

theorem query_all_engine_failure:
  assumes "h \<in> set (handles (the_manager s))"
      and "search w (snd h) (q qy) (collapse qy) N = None"
      and "limit qy = Some N"
  shows "fst (query_all w (the_manager s) (q qy) (collapse qy) N) = Inl EngineFailure
       \<and> fst (query_index w s META_DATABASE_NAME qy msg)
           = res msg Status_INTERNAL_SERVER_ERROR None None
       \<and> status (fst (query_index w s META_DATABASE_NAME qy msg)) = 500
       \<and> body (fst (query_index w s META_DATABASE_NAME qy msg)) = body msg"
proof -
  have "fst (search_handles w (handles (the_manager s)) (q qy) (collapse qy) N) = Inl EngineFailure"
    using assms(1,2) by (rule search_handles_fails)
  then have qa: "fst (query_all w (the_manager s) (q qy) (collapse qy) N) = Inl EngineFailure"
    by (simp add: fst_query_all)
  then have "fst (query_index w s META_DATABASE_NAME qy msg)
               = res msg Status_INTERNAL_SERVER_ERROR None None"
    using assms(3) by (simp add: fst_query_index_all)
  with qa show ?thesis by (simp add: Status_INTERNAL_SERVER_ERROR_def)
qed

text \<open>
  In the scenario the second of two open indices lies at a location the engine cannot
  search; the first one alone would have answered two documents.
\<close>

theorem query_all_engine_failure_witness:
  "search example_world ''/valid/path'' None None 5 = Some [doc_a, doc_b]
   \<and> search example_world ''/gone/path'' None None 5 = None
   \<and> status (fst (query_index example_world stale_handle_server ''_all''
                 (no_params\<lparr>limit := Some 5\<rparr>) blank_message)) = 500
   \<and> body (fst (query_index example_world stale_handle_server ''_all''
               (no_params\<lparr>limit := Some 5\<rparr>) blank_message)) = None"
proof -
  have h1: "(''idx4'', ''/gone/path'') \<in> set (handles (the_manager stale_handle_server))"
    by (simp add: stale_handle_server_def)
  have h2: "search example_world (snd (''idx4'', ''/gone/path''))
              (q (no_params\<lparr>limit := Some 5\<rparr>)) (collapse (no_params\<lparr>limit := Some 5\<rparr>)) 5 = None"
    by (simp add: example_world_def example_search_def no_params_def)
  have h3: "limit (no_params\<lparr>limit := Some 5\<rparr>) = Some 5"
    by simp
  have h4: "search example_world ''/valid/path'' None None 5 = Some [doc_a, doc_b]"
    by (simp add: example_world_def example_search_def)
  from query_all_engine_failure [OF h1 h2 h3, where msg = blank_message] h2 h4
  show ?thesis by (simp add: META_DATABASE_NAME_def blank_message_def no_params_def status_defs)
qed

subsection \<open>The reserved name\<close>

text \<open>
  C7, as the code has it. A \<^verbatim>\<open>DELETE\<close> of the reserved name \<^verbatim>\<open>_all\<close>, and a \<^verbatim>\<open>PUT\<close> of it that
  carries a \<^verbatim>\<open>path\<close> parameter of whatever value, is answered with status 405 and the
  header \<^verbatim>\<open>Allow: GET\<close>, whatever the other parameters and the state are, and leaves the
  state as it was.
\<close>

theorem reserved_name_rejected:
  "delete_index w s META_DATABASE_NAME qy msg
     = (res msg Status_METHOD_NOT_ALLOWED (Some [(''Allow'', META_DATABASE_METHODS)]) None, s)
   \<and> status (fst (delete_index w s META_DATABASE_NAME qy msg)) = 405
   \<and> map_of (response_headers (fst (delete_index w s META_DATABASE_NAME qy msg))) ''Allow''
       = Some ''GET''
   \<and> put_index w s META_DATABASE_NAME (qy\<lparr>path := Some p\<rparr>) msg
       = (res msg Status_METHOD_NOT_ALLOWED (Some [(''Allow'', META_DATABASE_METHODS)]) None, s)
   \<and> status (fst (put_index w s META_DATABASE_NAME (qy\<lparr>path := Some p\<rparr>) msg)) = 405
   \<and> map_of (response_headers (fst (put_index w s META_DATABASE_NAME (qy\<lparr>path := Some p\<rparr>) msg)))
        ''Allow'' = Some ''GET''"
  by (simp add: delete_index_def put_index_def Status_METHOD_NOT_ALLOWED_def
      META_DATABASE_METHODS_def)

text \<open>
  C7 as stated fails: the handler of \<^verbatim>\<open>PUT\<close> tests for the \<^verbatim>\<open>path\<close> parameter before it tests
  for the reserved name, so a \<^verbatim>\<open>PUT\<close> of \<^verbatim>\<open>_all\<close> without \<^verbatim>\<open>path\<close> is answered 400, with no
  \<^verbatim>\<open>Allow\<close> header.
\<close>

theorem reserved_name_put_without_path:
  "status (fst (put_index example_world example_server ''_all'' no_params blank_message)) = 400
   \<and> status (fst (put_index example_world example_server ''_all'' no_params blank_message)) \<noteq> 405
   \<and> map_of (response_headers
        (fst (put_index example_world example_server ''_all'' no_params blank_message))) ''Allow''
       = None"
  by (simp add: put_index_def no_params_def blank_message_def res_def Status_BAD_REQUEST_def)

subsection \<open>The missing limit\<close>

text \<open>
  C8. A query without the \<^verbatim>\<open>limit\<close> parameter is answered with status 400 whatever the index
  name is (open, absent or \<^verbatim>\<open>_all\<close>) and whatever the engine would do; the state is as
  before, and in particular no call has been made on the engine.
\<close>

theorem query_without_limit:
  "query_index w s index_name (qy\<lparr>limit := None\<rparr>) msg
     = (res msg Status_BAD_REQUEST None None, s)
   \<and> status (fst (query_index w s index_name (qy\<lparr>limit := None\<rparr>) msg)) = 400
   \<and> engine_calls (the_manager (snd (query_index w s index_name (qy\<lparr>limit := None\<rparr>) msg)))
       = engine_calls (the_manager s)"
  by (simp add: query_index_def Status_BAD_REQUEST_def)

subsection \<open>Creation on an open name\<close>




text \<open>
  The reserved name is open only when the cache held an entry for it at startup: a server
  started from a cache without such an entry never has it open, and its cache never gets
  such an entry, whatever requests it serves.
\<close>

lemma put_index_reserved:
  assumes "\<not> has_db (the_manager s) META_DATABASE_NAME"
  shows "\<not> has_db (the_manager (snd (put_index w s n qy msg))) META_DATABASE_NAME"
proof (cases "path qy")
  case None
  with assms show ?thesis
    by (simp add: put_index_def)
next
  case (Some p)
  show ?thesis
  proof (cases "n = META_DATABASE_NAME \<or> has_db (the_manager s) n")
    case True
    with assms Some show ?thesis
      by (auto simp: put_index_def)
  next
    case False
    then have n: "n \<noteq> META_DATABASE_NAME" and fresh: "\<not> has_db (the_manager s) n"
      by simp_all
    obtain r c' where se: "set_entry w (the_cache s) n p = (r, c')"
      by (cases "set_entry w (the_cache s) n p")
    from assms n fresh Some se show ?thesis
      by (cases r) (auto simp: put_index_def create_db_fresh has_db_iff)
  qed
qed

lemma put_index_cache_reserved:
  assumes "META_DATABASE_NAME \<notin> fst ` set (entries (the_cache s))"
  shows "META_DATABASE_NAME \<notin> fst ` set (entries (the_cache (snd (put_index w s n qy msg))))"
proof (cases "path qy")
  case None
  with assms show ?thesis
    by (simp add: put_index_def)
next
  case (Some p)
  show ?thesis
  proof (cases "n = META_DATABASE_NAME \<or> has_db (the_manager s) n")
    case True
    with assms Some show ?thesis
      by (auto simp: put_index_def)
  next
    case False
    then have n: "n \<noteq> META_DATABASE_NAME" and fresh: "\<not> has_db (the_manager s) n"
      by simp_all
    have upd: "META_DATABASE_NAME \<notin> fst ` set (AList.update n p (entries (the_cache s)))"
      using assms n by (simp add: dom_update)
    from assms n fresh Some upd show ?thesis
      by (auto simp: put_index_def create_db_fresh set_entry_def)
  qed
qed

lemma delete_index_reserved:
  assumes "\<not> has_db (the_manager s) META_DATABASE_NAME"
  shows "\<not> has_db (the_manager (snd (delete_index w s n qy msg))) META_DATABASE_NAME"
proof -
  obtain r m' where rm: "remove_db (the_manager s) n = (r, m')"
    by (cases "remove_db (the_manager s) n")
  then have "set (handles m') \<subseteq> set (handles (the_manager s))"
    by (auto simp: remove_db_def split: option.splits)
  with assms have "\<not> has_db m' META_DATABASE_NAME"
    by (auto simp: has_db_iff)
  with assms rm show ?thesis
    by (cases r) (auto simp: delete_index_def split: prod.splits sum.splits)
qed

lemma delete_index_cache_reserved:
  assumes "META_DATABASE_NAME \<notin> fst ` set (entries (the_cache s))"
  shows "META_DATABASE_NAME \<notin> fst ` set (entries (the_cache (snd (delete_index w s n qy msg))))"
proof -
  obtain r m' where rm: "remove_db (the_manager s) n = (r, m')"
    by (cases "remove_db (the_manager s) n")
  obtain r' c' where re: "remove_entry w (the_cache s) n = (r', c')"
    by (cases "remove_entry w (the_cache s) n")
  then have "set (entries c') \<subseteq> set (entries (the_cache s))"
    by (auto simp: remove_entry_def AList.delete_eq split: if_splits)
  with assms have "META_DATABASE_NAME \<notin> fst ` set (entries c')"
    by auto
  with assms rm re show ?thesis
    by (cases r; cases r') (auto simp: delete_index_def)
qed

lemma query_index_cache:
  "the_cache (snd (query_index w s n qy msg)) = the_cache s"
  by (auto simp: query_index_def split: option.splits prod.splits sum.splits)

subsection \<open>Creation at an invalid location\<close>

text \<open>
  C3, as the code has it. A \<^verbatim>\<open>PUT\<close> with a location at which no index can be opened leaves
  the handles of the registry and the cache as they were, for every name: \<open>has_db\<close> answers
  for every name what it answered before. When the name is not the reserved one and has no
  open handle, the answer is 403.
\<close>

theorem create_invalid_location:
  assumes "\<not> openable w p"
  shows "handles (the_manager (snd (put_index w s index_name (qy\<lparr>path := Some p\<rparr>) msg)))
           = handles (the_manager s)
       \<and> the_cache (snd (put_index w s index_name (qy\<lparr>path := Some p\<rparr>) msg)) = the_cache s
       \<and> has_db (the_manager (snd (put_index w s index_name (qy\<lparr>path := Some p\<rparr>) msg))) n
           = has_db (the_manager s) n
       \<and> (index_name \<noteq> META_DATABASE_NAME \<and> \<not> has_db (the_manager s) index_name \<longrightarrow>
            fst (put_index w s index_name (qy\<lparr>path := Some p\<rparr>) msg)
              = res msg Status_FORBIDDEN None None
          \<and> status (fst (put_index w s index_name (qy\<lparr>path := Some p\<rparr>) msg)) = 403)"
  using assms
  by (simp add: put_index_def create_db_fresh has_db_def Status_FORBIDDEN_def)

theorem create_invalid_location_witness:
  "\<not> openable example_world ''/missing/path''
   \<and> \<not> has_db (the_manager example_server) ''idx2''
   \<and> status (fst (put_index example_world example_server ''idx2''
                 (no_params\<lparr>path := Some ''/missing/path''\<rparr>) blank_message)) = 403
   \<and> has_db (the_manager (snd (put_index example_world example_server ''idx2''
                 (no_params\<lparr>path := Some ''/missing/path''\<rparr>) blank_message))) ''idx2'' = False
   \<and> the_cache (snd (put_index example_world example_server ''idx2''
                 (no_params\<lparr>path := Some ''/missing/path''\<rparr>) blank_message))
       = the_cache example_server"
proof -
  have h1: "\<not> openable example_world ''/missing/path''"
    by (simp add: example_world_def example_openable_def)
  have h2: "\<not> has_db (the_manager example_server) ''idx2''"
    by (simp add: has_db_def example_server_def)
  have h3: "''idx2'' \<noteq> META_DATABASE_NAME"
    by (simp add: META_DATABASE_NAME_def)
  from create_invalid_location [OF h1, where s = example_server and index_name = "''idx2''"
      and qy = no_params and msg = blank_message and n = "''idx2''"] h1 h2 h3
  show ?thesis by (simp add: Status_FORBIDDEN_def)
qed

text \<open>
  C3 as stated fails on a name that has an open handle: the handler does not validate the
  location then, and answers 200, not 403. It fails on the reserved name too, which is
  answered 405.
\<close>

theorem create_invalid_location_on_open_name:
  "\<not> openable example_world ''/missing/path''
   \<and> has_db (the_manager example_server) ''idx1''
   \<and> status (fst (put_index example_world example_server ''idx1''
                 (no_params\<lparr>path := Some ''/missing/path''\<rparr>) blank_message)) = 200
   \<and> status (fst (put_index example_world example_server ''idx1''
                 (no_params\<lparr>path := Some ''/missing/path''\<rparr>) blank_message)) \<noteq> 403
   \<and> status (fst (put_index example_world example_server ''_all''
                 (no_params\<lparr>path := Some ''/missing/path''\<rparr>) blank_message)) = 405"
  by (simp add: put_index_def has_db_def scenario_defs status_defs)

subsection \<open>A failed cache write after a creation\<close>

text \<open>
  C9. When \<open>create_db\<close> has succeeded for a new name and \<open>set_entry\<close> then fails, the
  \<^verbatim>\<open>PUT\<close> is answered 500, and nothing is undone: the manager is the one \<open>create_db\<close> left,
  the name has an open handle, and a query of it is put to the engine at the new location.
\<close>

theorem failed_cache_write_keeps_index:
  assumes "index_name \<noteq> META_DATABASE_NAME"
      and "\<not> has_db (the_manager s) index_name"
      and "fst (create_db w (the_manager s) index_name p) = Inr ()"
      and "fst (set_entry w (the_cache s) index_name p) = Inl e"
  shows "status (fst (put_index w s index_name (qy\<lparr>path := Some p\<rparr>) msg)) = 500
       \<and> the_manager (snd (put_index w s index_name (qy\<lparr>path := Some p\<rparr>) msg))
           = snd (create_db w (the_manager s) index_name p)
       \<and> has_db (the_manager (snd (put_index w s index_name (qy\<lparr>path := Some p\<rparr>) msg))) index_name
       \<and> fst (query_db w' (the_manager (snd (put_index w s index_name (qy\<lparr>path := Some p\<rparr>) msg)))
                index_name qe ck n)
           = (case search w' p qe ck n of None \<Rightarrow> Inl EngineFailure | Some ds \<Rightarrow> Inr ds)"
proof -
  from assms(2,3) have op: "openable w p"
    by (simp add: create_db_fresh split: if_splits)
  from assms(4) have st: "\<not> storage_ok w" and e: "e = StorageFailure"
    by (auto simp: set_entry_def split: if_splits)
  let ?m = "\<lparr>handles = handles (the_manager s) @ [(index_name, p)],
             engine_calls = engine_calls (the_manager s) @ [Open_Index p]\<rparr>"
  have cr: "create_db w (the_manager s) index_name p = (Inr (), ?m)"
    using assms(2) op by (simp add: create_db_fresh)
  have put: "put_index w s index_name (qy\<lparr>path := Some p\<rparr>) msg
               = (res msg Status_INTERNAL_SERVER_ERROR None None, s\<lparr>the_manager := ?m\<rparr>)"
    using assms(1,2) st cr by (simp add: put_index_def set_entry_def)
  have "map_of (handles (the_manager s)) index_name = None"
    using assms(2) by (simp add: has_db_def)
  then have "map_of (handles (the_manager s) @ [(index_name, p)]) index_name = Some p"
    by (rule map_of_append_fresh)
  then have lk: "map_of (handles ?m) index_name = Some p"
    by simp
  from lk have "has_db ?m index_name" by (simp add: has_db_def)
  moreover from lk have "fst (query_db w' ?m index_name qe ck n)
      = (case search w' p qe ck n of None \<Rightarrow> Inl EngineFailure | Some ds \<Rightarrow> Inr ds)"
    by (rule fst_query_db)
  ultimately show ?thesis
    using put cr by (simp add: Status_INTERNAL_SERVER_ERROR_def)
qed

theorem failed_cache_write_keeps_index_witness:
  "\<not> has_db (the_manager example_server) ''idx3''
   \<and> fst (create_db disk_full_world (the_manager example_server) ''idx3'' ''/other/path'') = Inr ()
   \<and> fst (set_entry disk_full_world (the_cache example_server) ''idx3'' ''/other/path'')
       = Inl StorageFailure
   \<and> status (fst (put_index disk_full_world example_server ''idx3''
                 (no_params\<lparr>path := Some ''/other/path''\<rparr>) blank_message)) = 500
   \<and> has_db (the_manager (snd (put_index disk_full_world example_server ''idx3''
                 (no_params\<lparr>path := Some ''/other/path''\<rparr>) blank_message))) ''idx3''
   \<and> fst (query_db example_world (the_manager (snd (put_index disk_full_world example_server ''idx3''
                 (no_params\<lparr>path := Some ''/other/path''\<rparr>) blank_message))) ''idx3'' None None 5)
       = Inr [doc_c]"
proof -
  have h1: "''idx3'' \<noteq> META_DATABASE_NAME"
    by (simp add: META_DATABASE_NAME_def)
  have h2: "\<not> has_db (the_manager example_server) ''idx3''"
    by (simp add: has_db_def example_server_def)
  have h3: "fst (create_db disk_full_world (the_manager example_server) ''idx3'' ''/other/path'')
              = Inr ()"
    using h2 by (simp add: create_db_fresh disk_full_world_def example_openable_def)
  have h4: "fst (set_entry disk_full_world (the_cache example_server) ''idx3'' ''/other/path'')
              = Inl StorageFailure"
    by (simp add: set_entry_def disk_full_world_def)
  have h5: "search example_world ''/other/path'' None None 5 = Some [doc_c]"
    by (simp add: example_world_def example_search_def)
  from failed_cache_write_keeps_index [OF h1 h2 h3 h4, where qy = no_params
      and msg = blank_message and w' = example_world and qe = None and ck = None and n = 5]
    h2 h3 h4 h5
  show ?thesis by (elim conjE) simp
qed

subsection \<open>Failures of a deletion\<close>

text \<open>
  C10. A \<^verbatim>\<open>DELETE\<close> of a name other than the reserved one is answered 200 when \<open>remove_db\<close>
  and \<open>remove_entry\<close> both succeed and 404 in every other case, whatever was thrown: also
  when \<open>remove_db\<close> has already removed the handle and it is \<open>remove_entry\<close> that fails. In
  that case the name is no longer open although the answer is 404.
\<close>

theorem delete_failures_are_404:
  assumes "index_name \<noteq> META_DATABASE_NAME"
  shows "(status (fst (delete_index w s index_name qy msg)) = 200
            \<or> status (fst (delete_index w s index_name qy msg)) = 404)
       \<and> (status (fst (delete_index w s index_name qy msg)) = 200 \<longleftrightarrow>
            fst (remove_db (the_manager s) index_name) = Inr ()
            \<and> fst (remove_entry w (the_cache s) index_name) = Inr ())
       \<and> (\<forall>e. fst (remove_db (the_manager s) index_name) = Inl e \<longrightarrow>
            fst (delete_index w s index_name qy msg) = res msg Status_NOT_FOUND None None)
       \<and> (\<forall>e. fst (remove_db (the_manager s) index_name) = Inr ()
              \<and> fst (remove_entry w (the_cache s) index_name) = Inl e \<longrightarrow>
            fst (delete_index w s index_name qy msg) = res msg Status_NOT_FOUND None None
            \<and> \<not> has_db (the_manager (snd (delete_index w s index_name qy msg))) index_name)"
proof -
  have nf: "map_of (filter (\<lambda>h. fst h \<noteq> index_name) hs) index_name = None" for hs :: "(string \<times> string) list"
    by (induction hs) auto
  obtain r m' where rm: "remove_db (the_manager s) index_name = (r, m')"
    by (cases "remove_db (the_manager s) index_name")
  obtain r' c' where rc: "remove_entry w (the_cache s) index_name = (r', c')"
    by (cases "remove_entry w (the_cache s) index_name")
  have gone: "r = Inr () \<Longrightarrow> \<not> has_db m' index_name"
    using rm by (auto simp: remove_db_def has_db_def nf split: option.splits)
  show ?thesis
    using assms rm rc gone
    by (cases r; cases r') (auto simp: delete_index_def status_defs)
qed

theorem delete_failures_are_404_witness:
  "fst (remove_db (the_manager example_server) ''idx1'') = Inr ()
   \<and> fst (remove_entry disk_full_world (the_cache example_server) ''idx1'') = Inl StorageFailure
   \<and> status (fst (delete_index disk_full_world example_server ''idx1'' no_params blank_message)) = 404
   \<and> \<not> has_db (the_manager (snd (delete_index disk_full_world example_server ''idx1'' no_params
                                   blank_message))) ''idx1''"
proof -
  have h1: "''idx1'' \<noteq> META_DATABASE_NAME"
    by (simp add: META_DATABASE_NAME_def)
  have h2: "fst (remove_db (the_manager example_server) ''idx1'') = Inr ()"
    by (simp add: remove_db_def example_server_def)
  have h3: "fst (remove_entry disk_full_world (the_cache example_server) ''idx1'')
              = Inl StorageFailure"
    by (simp add: remove_entry_def example_server_def disk_full_world_def)
  from delete_failures_are_404 [OF h1, where w = disk_full_world and s = example_server
      and qy = no_params and msg = blank_message] h2 h3
  show ?thesis by (simp add: Status_NOT_FOUND_def)
qed

subsection \<open>Facts about the merge\<close>

lemma sorted_desc_merge_results: "sorted_wrt (\<lambda>a b. score b \<le> score a) (merge_results dss)"
proof -
  have "sorted (map (\<lambda>d. - score d) (merge_results dss))"
    unfolding merge_results_def by (rule sorted_sort_key)
  then show ?thesis
    by (simp add: sorted_map)
qed

lemma sorted_wrt_take: "sorted_wrt P xs \<Longrightarrow> sorted_wrt P (take n xs)"
  by (metis append_take_drop_id sorted_wrt_append)

lemma mset_merge_results: "mset (merge_results dss) = mset (concat dss)"
  by (simp add: merge_results_def)

lemma set_merge_results: "set (merge_results dss) = set (concat dss)"
  by (simp add: merge_results_def)

lemma map_of_handle:
  "distinct (map fst hs) \<Longrightarrow> h \<in> set hs \<Longrightarrow> map_of hs (fst h) = Some (snd h)"
  by (cases h) simp

subsection \<open>The merged query\<close>

text \<open>
  C4. On a registry in which every name has at most one handle and every open index answers
  the search, a query of \<^verbatim>\<open>_all\<close> with limit \<open>N\<close> is answered 200 with a body \<open>rs\<close> such that:
  there are the per-index results \<open>dss\<close>, one for each open index in iteration order and each
  the answer of \<open>query_db\<close> for that index with the same limit; there is a sequence \<open>merged\<close>
  holding exactly the documents of all of them, ordered by descending score; and \<open>rs\<close> is
  the first \<open>N\<close> documents of \<open>merged\<close>, so the limit is applied after the merge. Hence
  \<open>rs\<close> has at most \<open>N\<close> documents, is ordered by descending score, and each of its
  documents is in the result of \<open>query_db\<close> for some open index.
\<close>

theorem query_all_merged:
  assumes "distinct (map fst (handles (the_manager s)))"
      and "\<forall>h \<in> set (handles (the_manager s)). search w (snd h) (q qy) (collapse qy) N \<noteq> None"
      and "limit qy = Some N"
  shows "\<exists>dss merged rs.
           list_all2 (\<lambda>h ds. fst (query_db w (the_manager s) (fst h) (q qy) (collapse qy) N) = Inr ds)
             (handles (the_manager s)) dss
         \<and> mset merged = mset (concat dss)
         \<and> sorted_wrt (\<lambda>a b. score b \<le> score a) merged
         \<and> rs = take N merged
         \<and> fst (query_index w s META_DATABASE_NAME qy msg) = res msg Status_OK None (Some rs)
         \<and> status (fst (query_index w s META_DATABASE_NAME qy msg)) = 200
         \<and> length rs \<le> N
         \<and> sorted_wrt (\<lambda>a b. score b \<le> score a) rs
         \<and> (\<forall>d \<in> set rs. \<exists>n ds. has_db (the_manager s) n
                \<and> fst (query_db w (the_manager s) n (q qy) (collapse qy) N) = Inr ds
                \<and> d \<in> set ds)"
proof -
  let ?m = "the_manager s"
  let ?hs = "handles ?m"
  let ?ans = "\<lambda>h. the (search w (snd h) (q qy) (collapse qy) N)"
  let ?dss = "map ?ans ?hs"
  let ?merged = "merge_results ?dss"
  let ?rs = "take N ?merged"
  have per_index: "fst (query_db w ?m (fst h) (q qy) (collapse qy) N) = Inr (?ans h)"
    if "h \<in> set ?hs" for h
  proof -
    from assms(1) that have "map_of ?hs (fst h) = Some (snd h)"
      by (rule map_of_handle)
    moreover from assms(2) that obtain ds where "search w (snd h) (q qy) (collapse qy) N = Some ds"
      by auto
    ultimately show ?thesis
      by (simp add: fst_query_db)
  qed
  then have 1: "list_all2 (\<lambda>h ds. fst (query_db w ?m (fst h) (q qy) (collapse qy) N) = Inr ds) ?hs ?dss"
    by (simp add: list.rel_map list_all2_same)
  have 2: "mset ?merged = mset (concat ?dss)"
    by (rule mset_merge_results)
  have 3: "sorted_wrt (\<lambda>a b. score b \<le> score a) ?merged"
    by (rule sorted_desc_merge_results)
  have "fst (search_handles w ?hs (q qy) (collapse qy) N) = Inr ?dss"
    using assms(2) by (simp add: search_handles_ok)
  then have "fst (query_all w ?m (q qy) (collapse qy) N) = Inr ?rs"
    by (simp add: fst_query_all)
  with assms(3) have 4: "fst (query_index w s META_DATABASE_NAME qy msg) = res msg Status_OK None (Some ?rs)"
    by (simp add: fst_query_index_all)
  then have 5: "status (fst (query_index w s META_DATABASE_NAME qy msg)) = 200"
    by (simp add: Status_OK_def)
  have 6: "length ?rs \<le> N"
    by simp
  from 3 have 7: "sorted_wrt (\<lambda>a b. score b \<le> score a) ?rs"
    by (rule sorted_wrt_take)
  have 8: "\<exists>n ds. has_db ?m n \<and> fst (query_db w ?m n (q qy) (collapse qy) N) = Inr ds \<and> d \<in> set ds"
    if "d \<in> set ?rs" for d
  proof -
    from that have "d \<in> set ?merged"
      by (rule in_set_takeD)
    then obtain h where h: "h \<in> set ?hs" and d: "d \<in> set (?ans h)"
      by (auto simp: set_merge_results)
    from h have "has_db ?m (fst h)"
      by (auto simp: has_db_iff)
    with per_index [OF h] d show ?thesis
      by blast
  qed
  from 1 2 3 4 5 6 7 8 show ?thesis
    by blast
qed

text \<open>
  In the scenario \<open>idx1\<close> answers the documents \<open>a\<close> (score 7) and \<open>b\<close> (score 3) and \<open>idx3\<close>
  answers \<open>c\<close> (score 5); with limit 2 the body is \<open>a\<close>, \<open>c\<close>.
\<close>

theorem query_all_merged_witness:
  "distinct (map fst (handles (the_manager two_index_server)))
   \<and> (\<exists>rs. fst (query_index example_world two_index_server ''_all'' (no_params\<lparr>limit := Some 2\<rparr>)
                  blank_message) = res blank_message Status_OK None (Some rs)
          \<and> length rs \<le> 2
          \<and> sorted_wrt (\<lambda>a b. score b \<le> score a) rs)
   \<and> body (fst (query_index example_world two_index_server ''_all'' (no_params\<lparr>limit := Some 2\<rparr>)
                 blank_message)) = Some [doc_a, doc_c]"
proof -
  have h1: "distinct (map fst (handles (the_manager two_index_server)))"
    by (simp add: two_index_server_def)
  have h2: "\<forall>h \<in> set (handles (the_manager two_index_server)).
              search example_world (snd h) (q (no_params\<lparr>limit := Some 2\<rparr>))
                (collapse (no_params\<lparr>limit := Some 2\<rparr>)) 2 \<noteq> None"
    by (simp add: two_index_server_def example_world_def example_search_def)
  have h3: "limit (no_params\<lparr>limit := Some 2\<rparr>) = Some 2"
    by simp
  have b: "body (fst (query_index example_world two_index_server ''_all''
             (no_params\<lparr>limit := Some 2\<rparr>) blank_message)) = Some [doc_a, doc_c]"
    by (simp add: query_index_def query_all_def merge_results_def scenario_defs)
  from query_all_merged [OF h1 h2 h3, where msg = blank_message] h1 b
  show ?thesis
    unfolding META_DATABASE_NAME_def by blast
qed

subsection \<open>Facts about the replay loop\<close>



lemma remove_entry_ok:
  "remove_entry w c n = (Inr u, c') \<Longrightarrow>
   entries c' = filter (\<lambda>x. fst x \<noteq> n) (entries c)"
proof -
  have absent: "map_of xs n = None \<Longrightarrow> filter (\<lambda>x. fst x \<noteq> n) xs = xs" for xs :: "(string \<times> string) list"
    by (induction xs) (auto split: if_splits)
  have del: "AList.delete n xs = filter (\<lambda>x. fst x \<noteq> n) xs" for xs :: "(string \<times> string) list"
    by (induction xs) auto
  assume "remove_entry w c n = (Inr u, c')"
  then show ?thesis
    by (auto simp: remove_entry_def absent del split: if_splits)
qed

lemma main_replay_result:
  assumes "distinct (map fst es)"
      and "\<forall>e \<in> set es. \<not> has_db m (fst e)"
      and "main_replay w es m c = Inr (m', c')"
  shows "handles m' = handles m @ filter (\<lambda>e. openable w (snd e)) es
       \<and> engine_calls m' = engine_calls m @ map (\<lambda>e. Open_Index (snd e)) es
       \<and> entries c' =
           filter (\<lambda>x. fst x \<notin> set (map fst (filter (\<lambda>e. \<not> openable w (snd e)) es))) (entries c)"
  using assms
proof (induction es arbitrary: m c)
  case Nil
  then show ?case by simp
next
  case (Cons e es)
  from Cons.prems(2) have fresh: "\<not> has_db m (fst e)"
    by simp
  from Cons.prems(1) have d: "distinct (map fst es)" and new: "fst e \<notin> fst ` set es"
    by simp_all
  show ?case
  proof (cases "openable w (snd e)")
    case True
    let ?m1 = "\<lparr>handles = handles m @ [e], engine_calls = engine_calls m @ [Open_Index (snd e)]\<rparr>"
    from fresh True have cr: "create_db w m (fst e) (snd e) = (Inr (), ?m1)"
      by (simp add: create_db_fresh)
    with Cons.prems(3) have run: "main_replay w es ?m1 c = Inr (m', c')"
      by simp
    have fresh1: "\<forall>e' \<in> set es. \<not> has_db ?m1 (fst e')"
    proof
      fix e' assume e': "e' \<in> set es"
      with Cons.prems(2) have "fst e' \<notin> fst ` set (handles m)"
        by (simp add: has_db_iff)
      moreover from e' new have "fst e' \<noteq> fst e"
        by (metis imageI)
      ultimately show "\<not> has_db ?m1 (fst e')"
        by (simp add: has_db_iff)
    qed
    from d fresh1 run
    have "handles m' = handles ?m1 @ filter (\<lambda>e. openable w (snd e)) es
        \<and> engine_calls m' = engine_calls ?m1 @ map (\<lambda>e. Open_Index (snd e)) es
        \<and> entries c' =
            filter (\<lambda>x. fst x \<notin> set (map fst (filter (\<lambda>e. \<not> openable w (snd e)) es))) (entries c)"
      by (rule Cons.IH)
    with True show ?thesis
      by simp
  next
    case False
    let ?m1 = "m\<lparr>engine_calls := engine_calls m @ [Open_Index (snd e)]\<rparr>"
    from fresh False have cr: "create_db w m (fst e) (snd e) = (Inl ERR_INVALID_PATH, ?m1)"
      by (simp add: create_db_fresh)
    obtain r' c1 where re: "remove_entry w c (fst e) = (r', c1)"
      by (cases "remove_entry w c (fst e)")
    have ok: "r' = Inr ()" and run: "main_replay w es ?m1 c1 = Inr (m', c')"
      using cr re Cons.prems(3) by (cases r'; simp)+
    from re ok have c1: "entries c1 = filter (\<lambda>x. fst x \<noteq> fst e) (entries c)"
      by (simp add: remove_entry_ok)
    from Cons.prems(2) have fresh1: "\<forall>e' \<in> set es. \<not> has_db ?m1 (fst e')"
      by (simp add: has_db_def)
    from d fresh1 run
    have "handles m' = handles ?m1 @ filter (\<lambda>e. openable w (snd e)) es
        \<and> engine_calls m' = engine_calls ?m1 @ map (\<lambda>e. Open_Index (snd e)) es
        \<and> entries c' =
            filter (\<lambda>x. fst x \<notin> set (map fst (filter (\<lambda>e. \<not> openable w (snd e)) es))) (entries c1)"
      by (rule Cons.IH)
    with False c1 show ?thesis
      by simp
  qed
qed

subsection \<open>The startup replay\<close>




subsection \<open>One handle for a name\<close>

text \<open>
  The registry never holds two handles for one name: the replay of a snapshot with
  distinct keys establishes it and every handler keeps it.
\<close>

lemma create_db_unique:
  "distinct (map fst (handles m)) \<Longrightarrow> distinct (map fst (handles (snd (create_db w m n p))))"
  by (simp add: create_db_def Let_def has_db_iff)

lemma remove_db_unique:
  "distinct (map fst (handles m)) \<Longrightarrow> distinct (map fst (handles (snd (remove_db m n))))"
  by (simp add: remove_db_def distinct_map_filter split: option.splits)

lemma query_db_handles: "handles (snd (query_db w m n qe ck k)) = handles m"
  by (simp add: query_db_def Let_def split: option.splits)

lemma query_all_handles: "handles (snd (query_all w m qe ck k)) = handles m"
  by (cases "search_handles w (handles m) qe ck k") (auto simp: query_all_def split: sum.splits)

lemma put_index_unique:
  assumes "distinct (map fst (handles (the_manager s)))"
  shows "distinct (map fst (handles (the_manager (snd (put_index w s n qy msg)))))"
proof -
  obtain r m' where cr: "create_db w (the_manager s) n (the (path qy)) = (r, m')"
    by (cases "create_db w (the_manager s) n (the (path qy))")
  with create_db_unique [OF assms, of w n "the (path qy)"]
  have "distinct (map fst (handles m'))"
    by simp
  with assms cr show ?thesis
    by (cases r) (auto simp: put_index_def split: option.splits prod.splits sum.splits)
qed

lemma delete_index_unique:
  assumes "distinct (map fst (handles (the_manager s)))"
  shows "distinct (map fst (handles (the_manager (snd (delete_index w s n qy msg)))))"
proof -
  obtain r m' where rm: "remove_db (the_manager s) n = (r, m')"
    by (cases "remove_db (the_manager s) n")
  with remove_db_unique [OF assms, of n]
  have "distinct (map fst (handles m'))"
    by simp
  with assms rm show ?thesis
    by (cases r) (auto simp: delete_index_def split: prod.splits sum.splits)
qed

lemma query_index_handles:
  "handles (the_manager (snd (query_index w s n qy msg))) = handles (the_manager s)"
proof (cases "limit qy")
  case None
  then show ?thesis
    by (simp add: query_index_def)
next
  case (Some k)
  show ?thesis
  proof (cases "n = META_DATABASE_NAME")
    case True
    obtain r m' where qa: "query_all w (the_manager s) (q qy) (collapse qy) k = (r, m')"
      by (cases "query_all w (the_manager s) (q qy) (collapse qy) k")
    with query_all_handles [of w "the_manager s" "q qy" "collapse qy" k]
    have "handles m' = handles (the_manager s)"
      by simp
    with Some True qa show ?thesis
      by (cases r) (simp_all add: query_index_def)
  next
    case False
    obtain r m' where qd: "query_db w (the_manager s) n (q qy) (collapse qy) k = (r, m')"
      by (cases "query_db w (the_manager s) n (q qy) (collapse qy) k")
    with query_db_handles [of w "the_manager s" n "q qy" "collapse qy" k]
    have "handles m' = handles (the_manager s)"
      by simp
    with Some False qd show ?thesis
      by (cases r) (simp_all add: query_index_def)
  qed
qed

lemma main_unique:
  assumes "distinct (map fst (get_entries c))"
      and "main w c = Inr sv"
  shows "distinct (map fst (handles (the_manager sv)))"
proof -
  from assms(2)
  have run: "main_replay w (get_entries c) new_manager c = Inr (the_manager sv, the_cache sv)"
    by (auto simp: main_def Let_def split: sum.splits)
  have fresh: "\<forall>e \<in> set (get_entries c). \<not> has_db new_manager (fst e)"
    by (simp add: has_db_def new_manager_def)
  from main_replay_result [OF assms(1) fresh run]
  have "handles (the_manager sv) = filter (\<lambda>e. openable w (snd e)) (get_entries c)"
    by (simp add: new_manager_def)
  with assms(1) show ?thesis
    by (simp add: distinct_map_filter)
qed

lemma main_reserved:
  assumes "distinct (map fst (get_entries c))"
      and "META_DATABASE_NAME \<notin> fst ` set (get_entries c)"
      and "main w c = Inr sv"
  shows "\<not> has_db (the_manager sv) META_DATABASE_NAME
       \<and> META_DATABASE_NAME \<notin> fst ` set (entries (the_cache sv))"
proof -
  from assms(3)
  have run: "main_replay w (get_entries c) new_manager c = Inr (the_manager sv, the_cache sv)"
    by (auto simp: main_def Let_def split: sum.splits)
  have fresh: "\<forall>e \<in> set (get_entries c). \<not> has_db new_manager (fst e)"
    by (simp add: has_db_def new_manager_def)
  from main_replay_result [OF assms(1) fresh run]
  have hs: "handles (the_manager sv) = filter (\<lambda>e. openable w (snd e)) (get_entries c)"
    and cs: "set (entries (the_cache sv)) \<subseteq> set (entries c)"
    by (auto simp: new_manager_def)
  from hs assms(2) have "\<not> has_db (the_manager sv) META_DATABASE_NAME"
    by (auto simp: has_db_iff)
  moreover from cs assms(2) have "META_DATABASE_NAME \<notin> fst ` set (entries (the_cache sv))"
    by (auto simp: get_entries_def)
  ultimately show ?thesis
    by simp
qed

end
